theory Spec2Isabelle
  imports Main
begin

section \<open>The dashboard state store (hook \<open>useDashboard\<close>)\<close>

text \<open>
  The hook keeps five pieces of state that matter here: the dashboard state, the callback
  registry, the transaction log, the current position in the log and the in-memory map of
  saved snapshots. Browser local storage is the persistence layer. The record \<open>Store\<close>
  holds these, and every operation of the hook is a function on it, each state updater
  run once. Datasets, the import state and the filter views derived from them do not take
  part in any of this and are left out.

  The functions that the hook returns are made at a render and close over the values of
  that render: \<open>updateDashboardState\<close> over \<open>callbacks\<close> and \<open>currentHistoryIndex\<close>,
  \<open>undo\<close> and \<open>redo\<close> over \<open>canUndo\<close>, \<open>canRedo\<close>, \<open>currentHistoryIndex\<close> and
  \<open>stateHistory\<close>, \<open>saveState\<close> over \<open>dashboardState\<close>, \<open>loadState\<close> over \<open>savedStates\<close>.
  Such an operation therefore takes two stores: the store \<open>r\<close> as it was at the render
  whose function is called, and the store \<open>s\<close> on which the call acts. A state setter
  given a function (\<open>prev => ...\<close>) reads \<open>s\<close>; a value read from the closure comes from
  \<open>r\<close>. The two are the same store when the call is the first one made after a render;
  they differ for the later calls of one event handler and for a handler that kept the
  functions of an older render.
\<close>

subsection \<open>Data\<close>

datatype RevenueType = Subscription | Usage

record DashboardState =
  selectedTimeRange :: string
  selectedRevenueType :: RevenueType
  selectedDepartment :: string
  selectedMetric :: string
  selectedIndustry :: string
  selectedRegion :: string

text \<open>\<open>Partial<DashboardState>\<close>: every key is absent (\<open>None\<close>) or carries a value.\<close>

record PartialState =
  p_selectedTimeRange :: "string option"
  p_selectedRevenueType :: "RevenueType option"
  p_selectedDepartment :: "string option"
  p_selectedMetric :: "string option"
  p_selectedIndustry :: "string option"
  p_selectedRegion :: "string option"

text \<open>\<open>keyof DashboardState\<close>.\<close>

datatype field =
  SelectedTimeRange | SelectedRevenueType | SelectedDepartment
  | SelectedMetric | SelectedIndustry | SelectedRegion

record FilterDependency =
  trigger :: field
  reset :: "field list"

record StateTransaction =
  id_tx :: string
  timestamp :: nat
  updates :: PartialState
  source :: "string option"

datatype error = TypeError | SyntaxError | QuotaExceededError | Thrown string

type_synonym DashboardCallback = "DashboardState \<Rightarrow> DashboardState \<Rightarrow> error + unit"

text \<open>
  A text held by local storage, told apart by what \<open>loadState\<close> can observe of it: the
  empty string (falsy), a text on which \<open>JSON.parse\<close> throws, and the serialised form of a
  dashboard state, which \<open>JSON.parse\<close> turns back into that state.
\<close>

datatype stored_text = Empty_text | Malformed_text | Json_text DashboardState

text \<open>
  What the outside can observe of a run: which callback was called with which pair of
  states, in order, and the lines written to the console.
\<close>

record Observed =
  invoked :: "(string \<times> DashboardState \<times> DashboardState) list"
  console :: "string list"

record Store =
  dashboardState :: DashboardState
  callbacks :: "(string \<times> DashboardCallback) list"
  stateHistory :: "StateTransaction list"
  currentHistoryIndex :: int
  savedStates :: "string \<rightharpoonup> DashboardState"
  localStorage :: "string \<rightharpoonup> stored_text"
  observed :: Observed

text \<open>The readings of the clock and of the random source taken by one call.\<close>

record Entropy =
  date_now_id :: nat
  math_random :: string
  date_now_ts :: nat

subsection \<open>Constants\<close>

definition initialDashboardState :: DashboardState where
  "initialDashboardState =
     \<lparr> selectedTimeRange = ''1Y'',
       selectedRevenueType = Subscription,
       selectedDepartment = ''all'',
       selectedMetric = ''revenue'',
       selectedIndustry = ''all'',
       selectedRegion = ''all'' \<rparr>"

definition filterDependencies :: "FilterDependency list" where
  "filterDependencies =
     [ \<lparr> trigger = SelectedRegion, reset = [SelectedIndustry] \<rparr>,
       \<lparr> trigger = SelectedDepartment, reset = [SelectedMetric] \<rparr> ]"

text \<open>
  The store of a first render: default state, no callback, empty log, position \<open>-1\<close>.
  The snapshot map is the one left by the mount effect, which reads local storage; both
  are parameters.
\<close>

definition initialStore ::
  "(string \<rightharpoonup> DashboardState) \<Rightarrow> (string \<rightharpoonup> stored_text) \<Rightarrow> Store" where
  "initialStore mem ls =
     \<lparr> dashboardState = initialDashboardState,
       callbacks = [],
       stateHistory = [],
       currentHistoryIndex = - 1,
       savedStates = mem,
       localStorage = ls,
       observed = \<lparr> invoked = [], console = [] \<rparr> \<rparr>"

subsection \<open>Objects and arrays of the host language\<close>

text \<open>
  \<open>Object.keys\<close> of a partial state: the keys that are present, listed here in the order
  of the interface declaration.
\<close>

definition Object_keys :: "PartialState \<Rightarrow> field list" where
  "Object_keys u =
     (if p_selectedTimeRange u \<noteq> None then [SelectedTimeRange] else []) @
     (if p_selectedRevenueType u \<noteq> None then [SelectedRevenueType] else []) @
     (if p_selectedDepartment u \<noteq> None then [SelectedDepartment] else []) @
     (if p_selectedMetric u \<noteq> None then [SelectedMetric] else []) @
     (if p_selectedIndustry u \<noteq> None then [SelectedIndustry] else []) @
     (if p_selectedRegion u \<noteq> None then [SelectedRegion] else [])"

text \<open>\<open>Object.assign(target, updates)\<close>: every key present in the updates overwrites.\<close>

definition Object_assign :: "DashboardState \<Rightarrow> PartialState \<Rightarrow> DashboardState" where
  "Object_assign st u =
     \<lparr> selectedTimeRange =
         (case p_selectedTimeRange u of None \<Rightarrow> selectedTimeRange st | Some v \<Rightarrow> v),
       selectedRevenueType =
         (case p_selectedRevenueType u of None \<Rightarrow> selectedRevenueType st | Some v \<Rightarrow> v),
       selectedDepartment =
         (case p_selectedDepartment u of None \<Rightarrow> selectedDepartment st | Some v \<Rightarrow> v),
       selectedMetric =
         (case p_selectedMetric u of None \<Rightarrow> selectedMetric st | Some v \<Rightarrow> v),
       selectedIndustry =
         (case p_selectedIndustry u of None \<Rightarrow> selectedIndustry st | Some v \<Rightarrow> v),
       selectedRegion =
         (case p_selectedRegion u of None \<Rightarrow> selectedRegion st | Some v \<Rightarrow> v) \<rparr>"

text \<open>A complete state used where a partial one is expected (all keys present).\<close>

definition as_partial :: "DashboardState \<Rightarrow> PartialState" where
  "as_partial st =
     \<lparr> p_selectedTimeRange = Some (selectedTimeRange st),
       p_selectedRevenueType = Some (selectedRevenueType st),
       p_selectedDepartment = Some (selectedDepartment st),
       p_selectedMetric = Some (selectedMetric st),
       p_selectedIndustry = Some (selectedIndustry st),
       p_selectedRegion = Some (selectedRegion st) \<rparr>"

text \<open>\<open>array[i]\<close>: \<open>undefined\<close> (here \<open>None\<close>) outside the array.\<close>

definition at_index :: "'a list \<Rightarrow> int \<Rightarrow> 'a option" where
  "at_index xs i = (if 0 \<le> i \<and> i < int (length xs) then Some (xs ! nat i) else None)"

text \<open>\<open>array.slice(0, e)\<close>: a negative end counts from the end of the array.\<close>

definition slice0 :: "'a list \<Rightarrow> int \<Rightarrow> 'a list" where
  "slice0 xs e =
     (if e < 0 then take (nat (max (int (length xs) + e) 0)) xs else take (nat e) xs)"

text \<open>\<open>Map.set\<close> keeps the place of a key that is already there; \<open>Map.delete\<close> removes it.\<close>

fun Map_set :: "(string \<times> 'v) list \<Rightarrow> string \<Rightarrow> 'v \<Rightarrow> (string \<times> 'v) list" where
  "Map_set [] k v = [(k, v)]"
| "Map_set ((k', v') # m) k v = (if k' = k then (k, v) # m else (k', v') # Map_set m k v)"

definition Map_delete :: "(string \<times> 'v) list \<Rightarrow> string \<Rightarrow> (string \<times> 'v) list" where
  "Map_delete m k = filter (\<lambda>kv. fst kv \<noteq> k) m"

text \<open>Decimal text of a number, as string interpolation prints it.\<close>

fun decimal :: "nat \<Rightarrow> string" where
  "decimal n =
     (if n < 10 then [''0123456789'' ! n]
      else decimal (n div 10) @ [''0123456789'' ! (n mod 10)])"

definition substr :: "string \<Rightarrow> nat \<Rightarrow> nat \<Rightarrow> string" where
  "substr s start len = take len (drop start s)"

definition try_catch :: "error + 'a \<Rightarrow> (error \<Rightarrow> error + 'a) \<Rightarrow> error + 'a" where
  "try_catch body handler = (case body of Inl e \<Rightarrow> handler e | Inr v \<Rightarrow> Inr v)"

subsection \<open>Operations of the store\<close>

definition generateTransactionId :: "nat \<Rightarrow> string \<Rightarrow> string" where
  "generateTransactionId now rnd = ''tx_'' @ decimal now @ ''_'' @ substr rnd 2 9"

text \<open>The reset of one dependent key, as the inner \<open>forEach\<close> writes it.\<close>

definition apply_reset :: "field \<Rightarrow> PartialState \<Rightarrow> PartialState" where
  "apply_reset resetKey finalUpdates =
     (if resetKey = SelectedMetric then finalUpdates\<lparr>p_selectedMetric := Some ''revenue''\<rparr>
      else if resetKey = SelectedIndustry then finalUpdates\<lparr>p_selectedIndustry := Some ''all''\<rparr>
      else finalUpdates)"

definition apply_dependency :: "field \<Rightarrow> PartialState \<Rightarrow> PartialState" where
  "apply_dependency key finalUpdates =
     (case find (\<lambda>dep. trigger dep = key) filterDependencies of
        None \<Rightarrow> finalUpdates
      | Some dependency \<Rightarrow> fold apply_reset (reset dependency) finalUpdates)"

definition resolve_dependencies :: "PartialState \<Rightarrow> PartialState" where
  "resolve_dependencies u = fold apply_dependency (Object_keys u) u"

text \<open>
  One pass of \<open>callbacks.forEach\<close>: the call is recorded, and what the callback throws is
  caught and written to the console. An error that left the \<open>try\<close> would end the loop.
\<close>

definition invoke_guarded ::
  "string \<Rightarrow> DashboardCallback \<Rightarrow> DashboardState \<Rightarrow> DashboardState \<Rightarrow> Observed
     \<Rightarrow> error + Observed" where
  "invoke_guarded cid callback newState prev ob =
     (let called = ob\<lparr>invoked := invoked ob @ [(cid, newState, prev)]\<rparr> in
      try_catch
        (case callback newState prev of Inl e \<Rightarrow> Inl e | Inr _ \<Rightarrow> Inr called)
        (\<lambda>e. Inr (called\<lparr>console := console called @ [''Dashboard callback error:'']\<rparr>)))"

fun forEach_callbacks ::
  "(string \<times> DashboardCallback) list \<Rightarrow> DashboardState \<Rightarrow> DashboardState \<Rightarrow> Observed
     \<Rightarrow> error + Observed" where
  "forEach_callbacks [] newState prev ob = Inr ob"
| "forEach_callbacks ((cid, callback) # rest) newState prev ob =
     (case invoke_guarded cid callback newState prev ob of
        Inl e \<Rightarrow> Inl e
      | Inr ob' \<Rightarrow> forEach_callbacks rest newState prev ob')"

text \<open>
  \<open>updateDashboardState\<close>: the previous state, the log and the position that is advanced
  are those handed to the functional updaters; the position at which the log is cut and
  the registry whose callbacks are called are those of the closure.
\<close>

definition updateDashboardState ::
  "Store \<Rightarrow> PartialState \<Rightarrow> string option \<Rightarrow> Entropy \<Rightarrow> Store \<Rightarrow> error + Store" where
  "updateDashboardState r u src en s =
     (let prev = dashboardState s;
          finalUpdates = resolve_dependencies u;
          newState = Object_assign prev finalUpdates;
          transaction =
            \<lparr> id_tx = generateTransactionId (date_now_id en) (math_random en),
              timestamp = date_now_ts en,
              updates = finalUpdates,
              source = src \<rparr>;
          newHistory = slice0 (stateHistory s) (currentHistoryIndex r + 1)
      in case forEach_callbacks (callbacks r) newState prev (observed s) of
           Inl e \<Rightarrow> Inl e
         | Inr ob \<Rightarrow>
             Inr (s\<lparr> dashboardState := newState,
                     stateHistory := newHistory @ [transaction],
                     currentHistoryIndex := currentHistoryIndex s + 1,
                     observed := ob \<rparr>))"

definition registerCallback :: "string \<Rightarrow> DashboardCallback \<Rightarrow> Store \<Rightarrow> Store" where
  "registerCallback cid callback s = s\<lparr>callbacks := Map_set (callbacks s) cid callback\<rparr>"

definition unregisterCallback :: "string \<Rightarrow> Store \<Rightarrow> Store" where
  "unregisterCallback cid s = s\<lparr>callbacks := Map_delete (callbacks s) cid\<rparr>"

definition storage_key :: "string \<Rightarrow> string" where
  "storage_key name = ''dashboard_state_'' @ name"

text \<open>
  \<open>saveState\<close>: the state saved is the one of the closure; whether
  \<open>localStorage.setItem\<close> throws (quota) is an input of the call.
\<close>

definition setItem ::
  "bool \<Rightarrow> (string \<rightharpoonup> stored_text) \<Rightarrow> string \<Rightarrow> stored_text
     \<Rightarrow> error + (string \<rightharpoonup> stored_text)" where
  "setItem quota_exceeded ls k v =
     (if quota_exceeded then Inl QuotaExceededError else Inr (ls(k \<mapsto> v)))"

definition saveState :: "Store \<Rightarrow> string \<Rightarrow> bool \<Rightarrow> Store \<Rightarrow> Store" where
  "saveState r name quota_exceeded s =
     (let s1 = s\<lparr>savedStates := (savedStates s)(name \<mapsto> dashboardState r)\<rparr> in
      case setItem quota_exceeded (localStorage s1) (storage_key name)
             (Json_text (dashboardState r)) of
        Inr ls \<Rightarrow> s1\<lparr>localStorage := ls\<rparr>
      | Inl e \<Rightarrow>
          s1\<lparr>observed := (observed s1)
               \<lparr>console := console (observed s1) @ [''Failed to save state to localStorage:'']\<rparr>\<rparr>)"

definition JSON_parse :: "stored_text \<Rightarrow> error + DashboardState" where
  "JSON_parse t = (case t of Json_text st \<Rightarrow> Inr st | _ \<Rightarrow> Inl SyntaxError)"

definition truthy :: "stored_text \<Rightarrow> bool" where
  "truthy t = (t \<noteq> Empty_text)"

text \<open>\<open>loadState\<close>: the in-memory map looked up is the one of the closure.\<close>

definition loadState :: "Store \<Rightarrow> string \<Rightarrow> Store \<Rightarrow> bool \<times> Store" where
  "loadState r name s =
     (case savedStates r name of
        Some memoryState \<Rightarrow> (True, s\<lparr>dashboardState := memoryState\<rparr>)
      | None \<Rightarrow>
          (case localStorage s (storage_key name) of
             None \<Rightarrow> (False, s)
           | Some savedState \<Rightarrow>
               if truthy savedState then
                 (case JSON_parse savedState of
                    Inr parsedState \<Rightarrow> (True, s\<lparr>dashboardState := parsedState\<rparr>)
                  | Inl e \<Rightarrow>
                      (False,
                       s\<lparr>observed := (observed s)
                           \<lparr>console := console (observed s)
                              @ [''Failed to load state from localStorage:'']\<rparr>\<rparr>))
               else (False, s)))"

definition resetToDefault :: "Entropy \<Rightarrow> Store \<Rightarrow> Store" where
  "resetToDefault en s =
     (let transaction =
            \<lparr> id_tx = generateTransactionId (date_now_id en) (math_random en),
              timestamp = date_now_ts en,
              updates = as_partial initialDashboardState,
              source = Some ''reset'' \<rparr>
      in s\<lparr> dashboardState := initialDashboardState,
            stateHistory := stateHistory s @ [transaction],
            currentHistoryIndex := currentHistoryIndex s + 1 \<rparr>)"

text \<open>\<open>canUndo\<close> and \<open>canRedo\<close> are computed at a render, from the store as it is then.\<close>

definition canUndo :: "Store \<Rightarrow> bool" where
  "canUndo r = (currentHistoryIndex r > 0)"

definition canRedo :: "Store \<Rightarrow> bool" where
  "canRedo r = (currentHistoryIndex r < int (length (stateHistory r)) - 1)"

text \<open>
  The loop of \<open>undo\<close>, \<open>for (let i = 0; i <= previousIndex; i++)\<close>, from counter \<open>i\<close> on.
  Reading \<open>.updates\<close> of an entry that is not there throws.
\<close>

function reconstruct ::
  "StateTransaction list \<Rightarrow> int \<Rightarrow> int \<Rightarrow> DashboardState \<Rightarrow> error + DashboardState" where
  "reconstruct history previousIndex i reconstructedState =
     (if i \<le> previousIndex then
        (case at_index history i of
           None \<Rightarrow> Inl TypeError
         | Some tx \<Rightarrow>
             reconstruct history previousIndex (i + 1)
               (Object_assign reconstructedState (updates tx)))
      else Inr reconstructedState)"
  by pat_completeness auto
termination
  by (relation "measure (\<lambda>(h, p, i, st). nat (p + 1 - i))") auto

text \<open>
  \<open>undo\<close> works on the closure alone and sets the state and the position to values;
  \<open>redo\<close> takes the transaction from the log of the closure and merges its updates onto
  the state handed to the functional updater.
\<close>

definition undo :: "Store \<Rightarrow> Store \<Rightarrow> error + Store" where
  "undo r s =
     (if canUndo r then
        (let previousIndex = currentHistoryIndex r - 1 in
         case reconstruct (stateHistory r) previousIndex 0 initialDashboardState of
           Inl e \<Rightarrow> Inl e
         | Inr reconstructedState \<Rightarrow>
             Inr (s\<lparr> dashboardState := reconstructedState,
                     currentHistoryIndex := previousIndex \<rparr>))
      else Inr s)"

definition redo :: "Store \<Rightarrow> Store \<Rightarrow> error + Store" where
  "redo r s =
     (if canRedo r then
        (let nextIndex = currentHistoryIndex r + 1 in
         case at_index (stateHistory r) nextIndex of
           None \<Rightarrow> Inl TypeError
         | Some transaction \<Rightarrow>
             Inr (s\<lparr> dashboardState := Object_assign (dashboardState s) (updates transaction),
                     currentHistoryIndex := nextIndex \<rparr>))
      else Inr s)"

definition getStateHistory :: "Store \<Rightarrow> StateTransaction list" where
  "getStateHistory r = stateHistory r"

subsection \<open>Sequences of calls\<close>

text \<open>
  The calls a component can make on the hook. The calls of one event handler are made
  through the functions of one render, one after the other on the store as the calls
  before have left it. The host renders again after the handler, so that the next
  handler is given the functions of the new store. A call that throws ends the run, as
  the exception would.
\<close>

datatype action =
  Update PartialState "string option" Entropy
  | Undo
  | Redo
  | ResetToDefault Entropy
  | LoadState string
  | SaveState string bool
  | RegisterCallback string DashboardCallback
  | UnregisterCallback string

fun step :: "Store \<Rightarrow> action \<Rightarrow> Store \<Rightarrow> error + Store" where
  "step r (Update u src en) s = updateDashboardState r u src en s"
| "step r Undo s = undo r s"
| "step r Redo s = redo r s"
| "step r (ResetToDefault en) s = Inr (resetToDefault en s)"
| "step r (LoadState name) s = Inr (snd (loadState r name s))"
| "step r (SaveState name quota_exceeded) s = Inr (saveState r name quota_exceeded s)"
| "step r (RegisterCallback cid callback) s = Inr (registerCallback cid callback s)"
| "step r (UnregisterCallback cid) s = Inr (unregisterCallback cid s)"

fun run_handler :: "Store \<Rightarrow> action list \<Rightarrow> Store \<Rightarrow> error + Store" where
  "run_handler r [] s = Inr s"
| "run_handler r (a # as) s =
     (case step r a s of Inl e \<Rightarrow> Inl e | Inr s' \<Rightarrow> run_handler r as s')"

fun run :: "action list list \<Rightarrow> Store \<Rightarrow> error + Store" where
  "run [] s = Inr s"
| "run (handler # handlers) s =
     (case run_handler s handler s of Inl e \<Rightarrow> Inl e | Inr s' \<Rightarrow> run handlers s')"

text \<open>Every call in a handler of its own: each is made through the latest render.\<close>

definition on_own_render :: "action list \<Rightarrow> action list list" where
  "on_own_render acts = map (\<lambda>a. [a]) acts"

definition update_calls :: "(PartialState \<times> string option \<times> Entropy) list \<Rightarrow> action list" where
  "update_calls us = map (\<lambda>(u, src, en). Update u src en) us"

text \<open>
  The calls that keep the current state in step with the log: all but \<open>resetToDefault\<close>
  and \<open>loadState\<close>.
\<close>

definition history_call :: "action \<Rightarrow> bool" where
  "history_call a =
     (case a of ResetToDefault en \<Rightarrow> False | LoadState name \<Rightarrow> False | _ \<Rightarrow> True)"

subsection \<open>Replay, in the words of the specification\<close>

text \<open>
  The default state folded with the updates of every transaction from the first entry
  through a position, in order.
\<close>

definition merge_updates :: "DashboardState \<Rightarrow> StateTransaction list \<Rightarrow> DashboardState" where
  "merge_updates st txs = foldl (\<lambda>acc tx. Object_assign acc (updates tx)) st txs"

definition full_replay :: "StateTransaction list \<Rightarrow> int \<Rightarrow> DashboardState" where
  "full_replay history pos = merge_updates initialDashboardState (take (nat (pos + 1)) history)"

text \<open>
  Redo as a full replay: nothing happens at the end of the log; otherwise the position
  moves one step forward and the state is replayed from the default state through it.
\<close>

definition redo_by_replay :: "Store \<Rightarrow> Store" where
  "redo_by_replay s =
     (if currentHistoryIndex s = int (length (stateHistory s)) - 1 then s
      else s\<lparr> dashboardState := full_replay (stateHistory s) (currentHistoryIndex s + 1),
              currentHistoryIndex := currentHistoryIndex s + 1 \<rparr>)"

subsection \<open>Notions used in the proofs\<close>

text \<open>A store in which no update has been made yet, whatever callbacks are registered.\<close>

definition fresh :: "Store \<Rightarrow> bool" where
  "fresh s \<longleftrightarrow>
     dashboardState s = initialDashboardState \<and> stateHistory s = [] \<and>
     currentHistoryIndex s = - 1"

text \<open>
  The position lies between \<open>-1\<close> and the last entry of the log, and the current state is
  the replay of the log through the position.
\<close>

definition consistent :: "Store \<Rightarrow> bool" where
  "consistent s \<longleftrightarrow>
     - 1 \<le> currentHistoryIndex s \<and> currentHistoryIndex s < int (length (stateHistory s)) \<and>
     dashboardState s = full_replay (stateHistory s) (currentHistoryIndex s)"

definition at_end :: "Store \<Rightarrow> bool" where
  "at_end s \<longleftrightarrow> currentHistoryIndex s = int (length (stateHistory s)) - 1"

definition at_position :: "Store \<Rightarrow> int \<Rightarrow> Store" where
  "at_position s j =
     s\<lparr> dashboardState := full_replay (stateHistory s) j, currentHistoryIndex := j \<rparr>"

text \<open>What \<open>callbacks.forEach\<close> leaves to be observed, written without the error branch.\<close>

fun notified ::
  "(string \<times> DashboardCallback) list \<Rightarrow> DashboardState \<Rightarrow> DashboardState \<Rightarrow> Observed
     \<Rightarrow> Observed" where
  "notified [] n p ob = ob"
| "notified ((cid, cb) # rest) n p ob =
     notified rest n p
       (case cb n p of
          Inl e \<Rightarrow> ob\<lparr>invoked := invoked ob @ [(cid, n, p)],
                      console := console ob @ [''Dashboard callback error:'']\<rparr>
        | Inr _ \<Rightarrow> ob\<lparr>invoked := invoked ob @ [(cid, n, p)]\<rparr>)"

subsection \<open>Example inputs\<close>

text \<open>The object literal \<open>{}\<close>, from which the updates of the examples are built.\<close>

definition no_updates :: PartialState where
  "no_updates =
     \<lparr> p_selectedTimeRange = None, p_selectedRevenueType = None,
       p_selectedDepartment = None, p_selectedMetric = None,
       p_selectedIndustry = None, p_selectedRegion = None \<rparr>"

definition tick :: Entropy where
  "tick = \<lparr> date_now_id = 1234, math_random = ''0.4fzyo82mvyr'', date_now_ts = 1234 \<rparr>"

definition region_europe :: PartialState where
  "region_europe = no_updates\<lparr>p_selectedRegion := Some ''Europe''\<rparr>"

definition department_engineering :: PartialState where
  "department_engineering = no_updates\<lparr>p_selectedDepartment := Some ''engineering''\<rparr>"

definition industry_technology :: PartialState where
  "industry_technology = no_updates\<lparr>p_selectedIndustry := Some ''Technology''\<rparr>"

definition empty_store :: Store where
  "empty_store = initialStore Map.empty Map.empty"

definition quiet :: DashboardCallback where
  "quiet newState prev = Inr ()"

definition failing :: DashboardCallback where
  "failing newState prev = Inl (Thrown ''listener failed'')"

definition three_updates :: "(PartialState \<times> string option \<times> Entropy) list" where
  "three_updates =
     [(region_europe, Some ''a'', tick),
      (department_engineering, Some ''b'', tick),
      (industry_technology, None, tick)]"

definition reset_after_undo :: "action list" where
  "reset_after_undo =
     [Update region_europe (Some ''a'') tick,
      Update department_engineering (Some ''b'') tick,
      Undo,
      ResetToDefault tick]"

definition two_updates_one_listener :: Store where
  "two_updates_one_listener =
     projr (run (on_own_render
                   [RegisterCallback ''listener'' quiet,
                    Update region_europe (Some ''a'') tick,
                    Update department_engineering (Some ''b'') tick]) empty_store)"

definition middle_of_three :: Store where
  "middle_of_three =
     projr (run (on_own_render (update_calls three_updates @ [Undo])) empty_store)"


text \<open>
  Two updates, each after a render of its own, then one handler that calls undo and
  makes a third update.
\<close>

definition undo_and_update_in_one_handler :: "action list list" where
  "undo_and_update_in_one_handler =
     [[Update region_europe (Some ''a'') tick],
      [Update department_engineering (Some ''b'') tick],
      [Undo, Update industry_technology None tick]]"

definition load_between_undo_and_redo :: "action list" where
  "load_between_undo_and_redo =
     [SaveState ''home'' False,
      Update region_europe (Some ''a'') tick,
      Update department_engineering (Some ''b'') tick,
      Undo,
      LoadState ''home'']"

definition undo_then_ready_to_redo :: "action list" where
  "undo_then_ready_to_redo =
     [RegisterCallback ''listener'' failing,
      Update region_europe (Some ''a'') tick,
      Update department_engineering (Some ''b'') tick,
      Update industry_technology None tick,
      Undo]"

definition persisted_view :: DashboardState where
  "persisted_view = initialDashboardState\<lparr>selectedTimeRange := ''6M''\<rparr>"

definition persisted_only :: Store where
  "persisted_only =
     initialStore Map.empty [storage_key ''view'' \<mapsto> Json_text persisted_view]"

section \<open>Basic facts\<close>

declare reconstruct.simps [simp del]
declare decimal.simps [simp del]

subsection \<open>Notification never fails\<close>

lemma invoke_guarded_Inr:
  "invoke_guarded cid cb n p ob =
     Inr (case cb n p of
            Inl e \<Rightarrow> ob\<lparr>invoked := invoked ob @ [(cid, n, p)],
                        console := console ob @ [''Dashboard callback error:'']\<rparr>
          | Inr _ \<Rightarrow> ob\<lparr>invoked := invoked ob @ [(cid, n, p)]\<rparr>)"
  by (simp add: invoke_guarded_def try_catch_def Let_def split: sum.splits)

lemma forEach_callbacks_Inr:
  "forEach_callbacks cbs n p ob = Inr (notified cbs n p ob)"
proof (induction cbs arbitrary: ob)
  case Nil
  show ?case by simp
next
  case (Cons kv cbs)
  obtain cid cb where kv: "kv = (cid, cb)" by (cases kv)
  show ?case unfolding kv by (simp add: invoke_guarded_Inr Cons.IH)
qed


lemma updateDashboardState_Inr:
  "updateDashboardState r u src en s =
     Inr (s\<lparr> dashboardState := Object_assign (dashboardState s) (resolve_dependencies u),
             stateHistory := slice0 (stateHistory s) (currentHistoryIndex r + 1) @
               [\<lparr> id_tx = generateTransactionId (date_now_id en) (math_random en),
                  timestamp = date_now_ts en,
                  updates = resolve_dependencies u,
                  source = src \<rparr>],
             currentHistoryIndex := currentHistoryIndex s + 1,
             observed := notified (callbacks r)
               (Object_assign (dashboardState s) (resolve_dependencies u))
               (dashboardState s) (observed s) \<rparr>)"
  by (simp add: updateDashboardState_def Let_def forEach_callbacks_Inr)

subsection \<open>The loop of undo is a replay\<close>

lemma merge_updates_snoc:
  "merge_updates st (txs @ [tx]) = Object_assign (merge_updates st txs) (updates tx)"
  by (simp add: merge_updates_def)

lemma merge_updates_Cons:
  "merge_updates st (tx # txs) = merge_updates (Object_assign st (updates tx)) txs"
  by (simp add: merge_updates_def)

lemma merge_updates_Nil: "merge_updates st [] = st"
  by (simp add: merge_updates_def)

lemma reconstruct_eq:
  "0 \<le> i \<Longrightarrow> p < int (length h) \<Longrightarrow>
   reconstruct h p i st = Inr (merge_updates st (drop (nat i) (take (nat (p + 1)) h)))"
proof (induction h p i st rule: reconstruct.induct)
  case (1 h p i st)
  show ?case
  proof (cases "i \<le> p")
    case True
    with "1.prems" have inb: "nat i < length h" by linarith
    with "1.prems" have at: "at_index h i = Some (h ! nat i)"
      by (simp add: at_index_def)
    from True "1.prems" have lt: "nat i < length (take (nat (p + 1)) h)" by simp
    have dr: "drop (nat i) (take (nat (p + 1)) h) =
                h ! nat i # drop (nat (i + 1)) (take (nat (p + 1)) h)"
      using Cons_nth_drop_Suc [OF lt, symmetric] True "1.prems"
      by (simp add: nat_add_distrib)
    have "reconstruct h p (i + 1) (Object_assign st (updates (h ! nat i))) =
            Inr (merge_updates (Object_assign st (updates (h ! nat i)))
                   (drop (nat (i + 1)) (take (nat (p + 1)) h)))"
      using "1.IH" [OF True at] "1.prems" by simp
    then show ?thesis
      using True at dr by (subst reconstruct.simps) (simp add: merge_updates_Cons)
  next
    case False
    with "1.prems" have "drop (nat i) (take (nat (p + 1)) h) = []" by simp
    with False show ?thesis
      by (subst reconstruct.simps) (simp add: merge_updates_Nil)
  qed
qed

lemma reconstruct_Inr_bound:
  "0 \<le> i \<Longrightarrow> i \<le> p \<Longrightarrow> reconstruct h p i st = Inr st' \<Longrightarrow> p < int (length h)"
proof (induction h p i st rule: reconstruct.induct)
  case (1 h p i st)
  from "1.prems" obtain tx where at: "at_index h i = Some tx"
    by (subst (asm) reconstruct.simps) (auto split: option.splits)
  with "1.prems" have i: "i < int (length h)" by (auto simp: at_index_def split: if_splits)
  show ?case
  proof (cases "i + 1 \<le> p")
    case True
    from "1.prems" at have "reconstruct h p (i + 1) (Object_assign st (updates tx)) = Inr st'"
      by (subst (asm) reconstruct.simps) simp
    from "1.IH" [OF "1.prems"(2) at _ True this] "1.prems"(1) show ?thesis by simp
  next
    case False
    with "1.prems" i show ?thesis by simp
  qed
qed

lemma undo_Inr:
  assumes "undo r s = Inr s'"
  shows "s' = (if canUndo r
               then s\<lparr> dashboardState := full_replay (stateHistory r) (currentHistoryIndex r - 1),
                       currentHistoryIndex := currentHistoryIndex r - 1 \<rparr>
               else s)"
proof (cases "canUndo r")
  case True
  from assms True obtain st where
    st: "reconstruct (stateHistory r) (currentHistoryIndex r - 1) 0 initialDashboardState = Inr st"
    and s': "s' = s\<lparr> dashboardState := st, currentHistoryIndex := currentHistoryIndex r - 1 \<rparr>"
    by (auto simp: undo_def Let_def split: sum.splits)
  from True have "(0::int) \<le> currentHistoryIndex r - 1" by (simp add: canUndo_def)
  from reconstruct_Inr_bound [OF _ this st]
  have "currentHistoryIndex r - 1 < int (length (stateHistory r))" by simp
  from reconstruct_eq [OF _ this, of 0 initialDashboardState] st
  have "st = full_replay (stateHistory r) (currentHistoryIndex r - 1)"
    by (simp add: full_replay_def)
  with s' True show ?thesis by simp
next
  case False
  with assms show ?thesis by (simp add: undo_def)
qed

lemma redo_Inr:
  assumes "redo r s = Inr s'"
  shows "s' = (if canRedo r
               then s\<lparr> dashboardState :=
                         Object_assign (dashboardState s)
                           (updates (stateHistory r ! nat (currentHistoryIndex r + 1))),
                       currentHistoryIndex := currentHistoryIndex r + 1 \<rparr>
               else s)"
  using assms
  by (auto simp: redo_def Let_def at_index_def split: if_splits option.splits)

subsection \<open>Stores whose state is the replay of the log\<close>

lemma at_position_same: "consistent s \<Longrightarrow> at_position s (currentHistoryIndex s) = s"
  by (simp add: consistent_def at_position_def)


lemma consistent_at_position:
  "- 1 \<le> j \<Longrightarrow> j < int (length (stateHistory s)) \<Longrightarrow> consistent (at_position s j)"
  by (simp add: consistent_def at_position_def)

lemma fresh_consistent: "fresh s \<Longrightarrow> consistent s \<and> at_end s"
  by (simp add: fresh_def consistent_def at_end_def full_replay_def merge_updates_def)

lemma undo_consistent:
  assumes "consistent s"
  shows "undo s s = Inr (at_position s (if 0 < currentHistoryIndex s
                                       then currentHistoryIndex s - 1 else currentHistoryIndex s))"
proof (cases "0 < currentHistoryIndex s")
  case True
  from assms have "currentHistoryIndex s - 1 < int (length (stateHistory s))"
    by (simp add: consistent_def)
  from reconstruct_eq [OF _ this, of 0 initialDashboardState] True
  show ?thesis
    by (simp add: undo_def canUndo_def Let_def at_position_def full_replay_def)
next
  case False
  with assms show ?thesis
    by (simp add: undo_def canUndo_def at_position_same)
qed

lemma redo_consistent:
  assumes "consistent s"
  shows "redo s s = Inr (at_position s (if canRedo s
                                       then currentHistoryIndex s + 1 else currentHistoryIndex s))"
proof (cases "canRedo s")
  case True
  define k where "k = nat (currentHistoryIndex s + 1)"
  from True assms have k: "k < length (stateHistory s)" "int k = currentHistoryIndex s + 1"
    by (auto simp: canRedo_def consistent_def k_def)
  from True assms have "0 \<le> currentHistoryIndex s + 1"
    "currentHistoryIndex s + 1 < int (length (stateHistory s))"
    by (auto simp: canRedo_def consistent_def)
  then have at: "at_index (stateHistory s) (currentHistoryIndex s + 1) = Some (stateHistory s ! k)"
    by (simp add: at_index_def k_def)
  have tk: "take (nat (currentHistoryIndex s + 1 + 1)) (stateHistory s) =
              take k (stateHistory s) @ [stateHistory s ! k]"
  proof -
    from k(2) have "nat (currentHistoryIndex s + 1 + 1) = Suc k" by linarith
    then show ?thesis using take_Suc_conv_app_nth [OF k(1)] by simp
  qed
  have "dashboardState s = merge_updates initialDashboardState (take k (stateHistory s))"
    using assms by (simp add: consistent_def full_replay_def k_def)
  then show ?thesis
    using True at tk
    by (simp add: redo_def Let_def at_position_def full_replay_def merge_updates_snoc)
next
  case False
  with assms show ?thesis
    by (simp add: redo_def at_position_same)
qed

lemma at_position_redo_by_replay:
  "consistent s \<Longrightarrow>
   at_position s (if canRedo s then currentHistoryIndex s + 1 else currentHistoryIndex s) =
     redo_by_replay s"
  by (auto simp: redo_by_replay_def at_position_def canRedo_def consistent_def)

lemma update_consistent:
  assumes "consistent s" and "updateDashboardState s u src en s = Inr s'"
  shows "consistent s'" and "at_end s'"
    and "int (length (stateHistory s')) = currentHistoryIndex s + 2"
proof -
  define k where "k = nat (currentHistoryIndex s + 1)"
  from assms(1) have k: "int k = currentHistoryIndex s + 1" "k \<le> length (stateHistory s)"
    by (auto simp: consistent_def k_def)
  from assms(1) have "\<not> currentHistoryIndex s + 1 < 0" by (simp add: consistent_def)
  then have sl: "slice0 (stateHistory s) (currentHistoryIndex s + 1) = take k (stateHistory s)"
    by (simp add: slice0_def k_def)
  from k have k2: "nat (currentHistoryIndex s + 1 + 1) = Suc k" by linarith
  from assms(1)
  have st: "dashboardState s = merge_updates initialDashboardState (take k (stateHistory s))"
    by (simp add: consistent_def full_replay_def k_def)
  from assms(2)
  have s': "s' = s\<lparr> dashboardState := Object_assign (dashboardState s) (resolve_dependencies u),
             stateHistory := take k (stateHistory s) @
               [\<lparr> id_tx = generateTransactionId (date_now_id en) (math_random en),
                  timestamp = date_now_ts en,
                  updates = resolve_dependencies u,
                  source = src \<rparr>],
             currentHistoryIndex := currentHistoryIndex s + 1,
             observed := notified (callbacks s)
               (Object_assign (dashboardState s) (resolve_dependencies u))
               (dashboardState s) (observed s) \<rparr>"
    by (simp add: updateDashboardState_Inr sl)
  show "consistent s'"
    using k k2 st by (simp add: s' consistent_def full_replay_def merge_updates_snoc)
  show "at_end s'" using k by (simp add: s' at_end_def)
  show "int (length (stateHistory s')) = currentHistoryIndex s + 2"
    using k by (simp add: s')
qed

subsection \<open>Runs\<close>



lemma run_own_Nil: "run (on_own_render []) s = Inr s"
  by (simp add: on_own_render_def)

lemma run_own_Cons:
  "run (on_own_render (a # as)) s =
     (case step s a s of Inl e \<Rightarrow> Inl e | Inr s' \<Rightarrow> run (on_own_render as) s')"
  by (simp add: on_own_render_def split: sum.splits)




lemma step_consistent:
  assumes "history_call a" and "consistent s"
  shows "\<exists>s'. step s a s = Inr s' \<and> consistent s'"
proof (cases a)
  case (Update u src en)
  obtain s' where s': "updateDashboardState s u src en s = Inr s'"
    by (simp add: updateDashboardState_Inr)
  from update_consistent(1) [OF assms(2) s'] s' Update show ?thesis by simp
next
  case Undo
  from assms(2) have "consistent (at_position s (if 0 < currentHistoryIndex s
                        then currentHistoryIndex s - 1 else currentHistoryIndex s))"
    by (intro consistent_at_position) (auto simp: consistent_def)
  with undo_consistent [OF assms(2)] Undo show ?thesis by simp
next
  case Redo
  from assms(2) have "consistent (at_position s (if canRedo s
                        then currentHistoryIndex s + 1 else currentHistoryIndex s))"
    by (intro consistent_at_position) (auto simp: consistent_def canRedo_def)
  with redo_consistent [OF assms(2)] Redo show ?thesis by simp
next
  case (ResetToDefault en)
  with assms(1) show ?thesis by (simp add: history_call_def)
next
  case (LoadState name)
  with assms(1) show ?thesis by (simp add: history_call_def)
next
  case (SaveState name q)
  with assms(2) show ?thesis
    by (simp add: saveState_def setItem_def consistent_def Let_def)
next
  case (RegisterCallback cid cb)
  with assms(2) show ?thesis by (simp add: registerCallback_def consistent_def)
next
  case (UnregisterCallback cid)
  with assms(2) show ?thesis by (simp add: unregisterCallback_def consistent_def)
qed

lemma run_consistent:
  "list_all history_call acts \<Longrightarrow> consistent s \<Longrightarrow>
   \<exists>s'. run (on_own_render acts) s = Inr s' \<and> consistent s'"
proof (induction acts arbitrary: s)
  case Nil
  then show ?case by (simp add: run_own_Nil)
next
  case (Cons a acts)
  from Cons.prems have "history_call a" "list_all history_call acts" by simp_all
  from step_consistent [OF this(1) Cons.prems(2)] obtain s1 where
    s1: "step s a s = Inr s1" "consistent s1" by blast
  from Cons.IH [OF \<open>list_all history_call acts\<close> s1(2)] s1(1) show ?case
    by (simp add: run_own_Cons)
qed

subsection \<open>Evaluation of the examples\<close>

lemma resolve_region_europe:
  "resolve_dependencies region_europe =
     no_updates\<lparr>p_selectedRegion := Some ''Europe'', p_selectedIndustry := Some ''all''\<rparr>"
  by (simp add: resolve_dependencies_def region_europe_def no_updates_def Object_keys_def
      apply_dependency_def filterDependencies_def apply_reset_def)

lemma resolve_department_engineering:
  "resolve_dependencies department_engineering =
     no_updates\<lparr>p_selectedDepartment := Some ''engineering'',
                 p_selectedMetric := Some ''revenue''\<rparr>"
  by (simp add: resolve_dependencies_def department_engineering_def no_updates_def
      Object_keys_def apply_dependency_def filterDependencies_def apply_reset_def)

lemma resolve_industry_technology:
  "resolve_dependencies industry_technology =
     no_updates\<lparr>p_selectedIndustry := Some ''Technology''\<rparr>"
  by (simp add: resolve_dependencies_def industry_technology_def no_updates_def Object_keys_def
      apply_dependency_def filterDependencies_def apply_reset_def)

lemmas eval_store =
  updateDashboardState_Inr resolve_region_europe resolve_department_engineering
  resolve_industry_technology initialStore_def empty_store_def initialDashboardState_def
  Object_assign_def no_updates_def slice0_def undo_def redo_def canUndo_def canRedo_def
  at_index_def reconstruct.simps Let_def resetToDefault_def as_partial_def on_own_render_def


section \<open>The claims\<close>

subsection \<open>Undo after the first update\<close>

text \<open>
  C1. Claimed: undo is a no-op only at the earliest position, before any transaction; after
  one \<open>updateDashboardState\<close> from the initial store \<open>canUndo\<close> is true and undo restores the
  default state. The code tests \<open>currentHistoryIndex > 0\<close>, and the first update leaves the
  position at \<open>0\<close>: at the render that follows \<open>canUndo\<close> is false and undo returns the
  store as it is, the region still set.
\<close>

theorem first_update_cannot_be_undone:
  "\<exists>s1. updateDashboardState (initialStore mem ls) region_europe (Some ''test'') en
          (initialStore mem ls) = Inr s1 \<and>
        selectedRegion (dashboardState s1) = ''Europe'' \<and>
        length (stateHistory s1) = 1 \<and>
        currentHistoryIndex s1 = 0 \<and>
        \<not> canUndo s1 \<and> undo s1 s1 = Inr s1 \<and> dashboardState s1 \<noteq> initialDashboardState"
  by (simp add: eval_store)

subsection \<open>Reset after an undo\<close>

text \<open>
  C2. Claimed: \<open>resetToDefault\<close> truncates the log at the current position before it appends
  the reset transaction, and the position then points at the reset transaction. The code
  appends to the whole log and adds one to the position: after two updates, one undo and a
  reset, each call made after a render of its own, the log still holds the second update,
  the position points at it and not at the reset transaction, and a redo is offered.
\<close>

theorem reset_keeps_future_history:
  "\<exists>s. run (on_own_render reset_after_undo) empty_store = Inr s \<and>
       dashboardState s = initialDashboardState \<and>
       map source (stateHistory s) = [Some ''a'', Some ''b'', Some ''reset''] \<and>
       currentHistoryIndex s = 1 \<and>
       map_option source (at_index (stateHistory s) (currentHistoryIndex s)) = Some (Some ''b'') \<and>
       canRedo s"
  by (simp add: reset_after_undo_def eval_store)

subsection \<open>Undo and redo are silent\<close>

text \<open>
  C3, as amended. An undo or a redo that returns, called through the functions of any
  render \<open>r\<close> on any store \<open>s\<close>, leaves the log, the callback registry and everything
  observed (the calls made to callbacks, the console) as they were: no callback is invoked
  and no transaction is created. When the position moves, the new state is computed from
  the recorded updates as they are, with no dependency resolution: undo replays the log
  through the new position, redo merges the updates of the entry at the new position onto
  the current state.
\<close>

theorem undo_redo_silent:
  "(undo r s = Inr s' \<longrightarrow>
      observed s' = observed s \<and> stateHistory s' = stateHistory s \<and>
      callbacks s' = callbacks s \<and>
      (canUndo r \<longrightarrow>
         currentHistoryIndex s' = currentHistoryIndex r - 1 \<and>
         dashboardState s' = full_replay (stateHistory r) (currentHistoryIndex s'))) \<and>
   (redo r s = Inr s'' \<longrightarrow>
      observed s'' = observed s \<and> stateHistory s'' = stateHistory s \<and>
      callbacks s'' = callbacks s \<and>
      (canRedo r \<longrightarrow>
         currentHistoryIndex s'' = currentHistoryIndex r + 1 \<and>
         dashboardState s'' =
           Object_assign (dashboardState s)
             (updates (stateHistory r ! nat (currentHistoryIndex s'')))))"
proof (intro conjI impI)
  assume "undo r s = Inr s'"
  note u = undo_Inr [OF this]
  show "observed s' = observed s" "stateHistory s' = stateHistory s"
    "callbacks s' = callbacks s" by (simp_all add: u)
  assume "canUndo r"
  with u show "currentHistoryIndex s' = currentHistoryIndex r - 1"
    "dashboardState s' = full_replay (stateHistory r) (currentHistoryIndex s')" by simp_all
next
  assume "redo r s = Inr s''"
  note rd = redo_Inr [OF this]
  show "observed s'' = observed s" "stateHistory s'' = stateHistory s"
    "callbacks s'' = callbacks s" by (simp_all add: rd)
  assume "canRedo r"
  with rd show "currentHistoryIndex s'' = currentHistoryIndex r + 1"
    "dashboardState s'' =
       Object_assign (dashboardState s)
         (updates (stateHistory r ! nat (currentHistoryIndex s'')))" by simp_all
qed

text \<open>An instance: three updates and one undo, from where both undo and redo move.\<close>

theorem undo_redo_silent_witness:
  "undo middle_of_three middle_of_three = Inr (projr (undo middle_of_three middle_of_three)) \<and>
   canUndo middle_of_three \<and>
   redo middle_of_three middle_of_three = Inr (projr (redo middle_of_three middle_of_three)) \<and>
   canRedo middle_of_three \<and>
   observed (projr (undo middle_of_three middle_of_three)) = observed middle_of_three \<and>
   stateHistory (projr (undo middle_of_three middle_of_three)) = stateHistory middle_of_three \<and>
   currentHistoryIndex (projr (undo middle_of_three middle_of_three)) = 0 \<and>
   observed (projr (redo middle_of_three middle_of_three)) = observed middle_of_three \<and>
   stateHistory (projr (redo middle_of_three middle_of_three)) = stateHistory middle_of_three \<and>
   currentHistoryIndex (projr (redo middle_of_three middle_of_three)) = 2"
proof -
  have u: "undo middle_of_three middle_of_three =
             Inr (projr (undo middle_of_three middle_of_three))"
    and r: "redo middle_of_three middle_of_three =
             Inr (projr (redo middle_of_three middle_of_three))"
    and c: "canUndo middle_of_three" "canRedo middle_of_three"
    and i: "currentHistoryIndex middle_of_three = 1"
    by (simp_all add: middle_of_three_def three_updates_def update_calls_def eval_store)
  from undo_redo_silent [where r = middle_of_three and s = middle_of_three
      and s' = "projr (undo middle_of_three middle_of_three)"
      and s'' = "projr (redo middle_of_three middle_of_three)"] u r c i
  show ?thesis by simp
qed

text \<open>
  With a callback registered and two updates made, the callback has been called twice.
  The undo moves the position from \<open>1\<close> to \<open>0\<close> and the redo moves it back, and the
  callback has still been called twice.
\<close>

theorem undo_redo_notify_counterexample:
  "map fst (callbacks two_updates_one_listener) = [''listener''] \<and>
   length (invoked (observed two_updates_one_listener)) = 2 \<and>
   currentHistoryIndex two_updates_one_listener = 1 \<and>
   currentHistoryIndex
     (projr (undo two_updates_one_listener two_updates_one_listener)) = 0 \<and>
   length (invoked (observed
     (projr (undo two_updates_one_listener two_updates_one_listener)))) = 2 \<and>
   currentHistoryIndex
     (projr (run (on_own_render [Undo, Redo]) two_updates_one_listener)) = 1 \<and>
   length (invoked (observed
     (projr (run (on_own_render [Undo, Redo]) two_updates_one_listener)))) = 2"
  by (simp add: two_updates_one_listener_def registerCallback_def quiet_def eval_store)

subsection \<open>Redo by merging against redo by replay\<close>

text \<open>
  C4, as amended. In every store reached from the initial store by calls of
  \<open>updateDashboardState\<close>, \<open>undo\<close>, \<open>redo\<close>, \<open>saveState\<close>, \<open>registerCallback\<close> and
  \<open>unregisterCallback\<close>, each made through the functions of the latest render (no two
  calls share a render and no function of an older render is called; such a run never
  throws), redo as the code does it, called at the render of that store and merging the
  recorded updates of the next transaction onto the current state, gives exactly the
  store that a full replay from the default state through the new position gives.
\<close>

theorem redo_merge_equals_replay:
  assumes "list_all history_call acts"
  shows "\<exists>s. run (on_own_render acts) (initialStore mem ls) = Inr s \<and>
             redo s s = Inr (redo_by_replay s)"
proof -
  have "consistent (initialStore mem ls)"
    by (rule fresh_consistent [THEN conjunct1]) (simp add: fresh_def initialStore_def)
  from run_consistent [OF assms this] obtain s where
    s: "run (on_own_render acts) (initialStore mem ls) = Inr s" "consistent s" by blast
  from redo_consistent [OF s(2)] at_position_redo_by_replay [OF s(2)]
  have "redo s s = Inr (redo_by_replay s)" by simp
  with s(1) show ?thesis by simp
qed

text \<open>An instance: a failing listener, three updates and one undo, then the redo.\<close>

theorem redo_merge_equals_replay_witness:
  "list_all history_call undo_then_ready_to_redo \<and>
   canRedo (projr (run (on_own_render undo_then_ready_to_redo) empty_store)) \<and>
   redo (projr (run (on_own_render undo_then_ready_to_redo) empty_store))
        (projr (run (on_own_render undo_then_ready_to_redo) empty_store)) =
     Inr (redo_by_replay (projr (run (on_own_render undo_then_ready_to_redo) empty_store))) \<and>
   selectedIndustry (dashboardState
     (redo_by_replay (projr (run (on_own_render undo_then_ready_to_redo) empty_store)))) =
     ''Technology''"
proof -
  have h: "list_all history_call undo_then_ready_to_redo"
    by (simp add: undo_then_ready_to_redo_def history_call_def)
  from redo_merge_equals_replay [OF h, of Map.empty Map.empty]
  have r: "redo (projr (run (on_own_render undo_then_ready_to_redo) empty_store))
                (projr (run (on_own_render undo_then_ready_to_redo) empty_store)) =
          Inr (redo_by_replay (projr (run (on_own_render undo_then_ready_to_redo) empty_store)))"
    by (auto simp: empty_store_def)
  have "canRedo (projr (run (on_own_render undo_then_ready_to_redo) empty_store))"
    "selectedIndustry (dashboardState
       (redo_by_replay (projr (run (on_own_render undo_then_ready_to_redo) empty_store)))) =
       ''Technology''"
    by (simp_all add: undo_then_ready_to_redo_def registerCallback_def failing_def
        redo_by_replay_def full_replay_def merge_updates_def eval_store)
  with h r show ?thesis by simp
qed

text \<open>
  Two reachable stores on which the two differ. In the first, a snapshot of the default
  state is saved, two updates are made, the second is undone and the snapshot is loaded,
  each call after a render of its own: \<open>loadState\<close> replaces the current state and
  records nothing, so the redo merges the department update onto a state whose region
  is \<open>all\<close>, while the replay of the log has the region of the first update. In the
  second, two updates are made on renders of their own and one handler then calls undo
  and makes a third update: the update cuts the log at the position of the render, not
  at the one the undo has just set, so the log keeps the second update though the state
  was rebuilt without it; the redo merges the third update onto that state, and the
  replay has the department of the second.
\<close>

theorem redo_merge_replay_counterexample:
  "canRedo (projr (run (on_own_render load_between_undo_and_redo) empty_store)) \<and>
   selectedRegion (dashboardState
     (projr (redo (projr (run (on_own_render load_between_undo_and_redo) empty_store))
                  (projr (run (on_own_render load_between_undo_and_redo) empty_store))))) =
     ''all'' \<and>
   selectedRegion (dashboardState
     (redo_by_replay (projr (run (on_own_render load_between_undo_and_redo) empty_store)))) =
     ''Europe'' \<and>
   canRedo (projr (run undo_and_update_in_one_handler empty_store)) \<and>
   selectedDepartment (dashboardState
     (projr (redo (projr (run undo_and_update_in_one_handler empty_store))
                  (projr (run undo_and_update_in_one_handler empty_store))))) = ''all'' \<and>
   selectedDepartment (dashboardState
     (redo_by_replay (projr (run undo_and_update_in_one_handler empty_store)))) =
     ''engineering''"
  by (simp add: load_between_undo_and_redo_def undo_and_update_in_one_handler_def
      saveState_def setItem_def loadState_def
      redo_by_replay_def full_replay_def merge_updates_def eval_store)

subsection \<open>What an update of the region leaves alone\<close>

text \<open>
  C5, as amended. From every prior store, and through the function of any render,
  \<open>updateDashboardState({selectedRegion: "Europe"})\<close> returns, sets the region, resets the
  industry to \<open>all\<close> (the dependency of the industry on the region) and leaves the time
  range, the revenue type, the department and the metric as they were.
\<close>

theorem region_update_frame:
  "\<exists>s'. updateDashboardState r region_europe src en s = Inr s' \<and>
        dashboardState s' =
          (dashboardState s)\<lparr>selectedRegion := ''Europe'', selectedIndustry := ''all''\<rparr> \<and>
        selectedTimeRange (dashboardState s') = selectedTimeRange (dashboardState s) \<and>
        selectedRevenueType (dashboardState s') = selectedRevenueType (dashboardState s) \<and>
        selectedDepartment (dashboardState s') = selectedDepartment (dashboardState s) \<and>
        selectedMetric (dashboardState s') = selectedMetric (dashboardState s)"
  by (simp add: updateDashboardState_Inr resolve_region_europe Object_assign_def no_updates_def)

text \<open>
  With the industry set to \<open>Technology\<close> by a first update, the update of the region
  changes the industry back to \<open>all\<close>.
\<close>

theorem region_update_resets_industry_counterexample:
  "selectedIndustry (dashboardState
     (projr (run (on_own_render [Update industry_technology None tick]) empty_store))) =
     ''Technology'' \<and>
   selectedIndustry (dashboardState
     (projr (run (on_own_render [Update industry_technology None tick,
                                 Update region_europe None tick]) empty_store))) = ''all''"
  by (simp add: eval_store)

subsection \<open>Loading a snapshot\<close>

text \<open>
  C6, as amended. For a name that the in-memory map of the render does not hold: when
  local storage holds the serialised form of a state under the key of the name,
  \<open>loadState\<close> returns true and makes that state the current one, and nothing else of the
  store changes, the in-memory map included; when local storage holds nothing under the
  key, \<open>loadState\<close> returns false and the store is unchanged.
\<close>

theorem loadState_from_persistence:
  assumes "savedStates r name = None"
  shows "(localStorage s (storage_key name) = Some (Json_text st) \<longrightarrow>
            loadState r name s = (True, s\<lparr>dashboardState := st\<rparr>)) \<and>
         (localStorage s (storage_key name) = None \<longrightarrow> loadState r name s = (False, s))"
  using assms by (simp add: loadState_def truthy_def JSON_parse_def)

text \<open>An instance of each case: a persisted name and a name that is nowhere.\<close>

theorem loadState_from_persistence_witness:
  "savedStates persisted_only ''view'' = None \<and>
   localStorage persisted_only (storage_key ''view'') = Some (Json_text persisted_view) \<and>
   loadState persisted_only ''view'' persisted_only =
     (True, persisted_only\<lparr>dashboardState := persisted_view\<rparr>) \<and>
   savedStates persisted_only ''other'' = None \<and>
   localStorage persisted_only (storage_key ''other'') = None \<and>
   loadState persisted_only ''other'' persisted_only = (False, persisted_only)"
proof -
  have m: "savedStates persisted_only ''view'' = None"
    "savedStates persisted_only ''other'' = None"
    by (simp_all add: persisted_only_def initialStore_def)
  have l: "localStorage persisted_only (storage_key ''view'') = Some (Json_text persisted_view)"
    "localStorage persisted_only (storage_key ''other'') = None"
    by (simp_all add: persisted_only_def initialStore_def storage_key_def)
  from loadState_from_persistence [OF m(1), of persisted_only persisted_view]
    loadState_from_persistence [OF m(2), of persisted_only persisted_view] m l
  show ?thesis by simp
qed

text \<open>
  The snapshot is in local storage only. It is loaded, and the in-memory map still has
  no entry for its name.
\<close>

theorem loadState_memory_counterexample:
  "savedStates persisted_only ''view'' = None \<and>
   localStorage persisted_only (storage_key ''view'') = Some (Json_text persisted_view) \<and>
   fst (loadState persisted_only ''view'' persisted_only) \<and>
   dashboardState (snd (loadState persisted_only ''view'' persisted_only)) = persisted_view \<and>
   savedStates (snd (loadState persisted_only ''view'' persisted_only)) ''view'' = None"
  by (simp add: persisted_only_def initialStore_def loadState_def truthy_def JSON_parse_def)

subsection \<open>Undo everything, redo everything\<close>




subsection \<open>An update after undos cuts the log\<close>




subsection \<open>Three listeners, one update\<close>



subsection \<open>What loading leaves alone\<close>

text \<open>
  C10. For every name and every store, found or not, and through the function of any
  render, \<open>loadState\<close> leaves the transaction log, the position (hence \<open>canUndo\<close> and
  \<open>canRedo\<close>) and the callback registry as they were, and calls no callback.
\<close>

theorem loadState_frame:
  "stateHistory (snd (loadState r name s)) = stateHistory s \<and>
   currentHistoryIndex (snd (loadState r name s)) = currentHistoryIndex s \<and>
   canUndo (snd (loadState r name s)) = canUndo s \<and>
   canRedo (snd (loadState r name s)) = canRedo s \<and>
   callbacks (snd (loadState r name s)) = callbacks s \<and>
   invoked (observed (snd (loadState r name s))) = invoked (observed s)"
  by (simp add: loadState_def canUndo_def canRedo_def Let_def split: option.splits sum.splits)

end
